theory Spec2Isabelle
  imports Main "HOL-Library.Multiset" "HOL-Library.Sublist"
begin

section \<open>Values, errors and documents\<close>

text \<open>
  The backend is a set of Express request handlers in \<^verbatim>\<open>src/server.js\<close> over two
  Mongoose models (\<^verbatim>\<open>src/models/emails.js\<close> and the reply model). A JavaScript
  exception is a value with a \<^verbatim>\<open>name\<close> and, for driver errors, a numeric
  \<^verbatim>\<open>code\<close>; these are the only two fields the handlers inspect.
\<close>

datatype js_error = JsError (error_name: string) (error_code: "nat option")

definition TypeError :: js_error where
  "TypeError = JsError ''TypeError'' None"

definition ReferenceError :: js_error where
  "ReferenceError = JsError ''ReferenceError'' None"

definition ValidationError :: js_error where
  "ValidationError = JsError ''ValidationError'' None"

text \<open>
  The user object kept by the credential store: \<^verbatim>\<open>{ id, accessToken, emailAddress }\<close>
  (\<^verbatim>\<open>id\<close> is \<open>user_id\<close> here).
\<close>

record user =
  user_id :: string
  accessToken :: string
  emailAddress :: string

text \<open>
  A thread as the handler reads it: \<^verbatim>\<open>thread.subject\<close>, \<^verbatim>\<open>thread.snippet\<close> and
  \<^verbatim>\<open>thread.messages[0].from[0].email\<close>. A property that is \<^verbatim>\<open>undefined\<close> is
  \<open>None\<close>; the \<^verbatim>\<open>from\<close> of a message is \<open>from_field\<close>.
\<close>

record participant =
  email :: "string option"

record message =
  from_field :: "participant list option"

record thread =
  thread_subject :: "string option"
  thread_snippet :: "string option"
  messages :: "message list option"

text \<open>
  EmailSchema (\<^verbatim>\<open>src/models/emails.js\<close>), without the timestamps. The schema declares
  the unique index \<^verbatim>\<open>{ userId: 1, subject: 1, snippet: 1 }\<close>; a missing field is
  indexed as null, so two missing subjects are equal keys.
\<close>

record email_doc =
  subject :: "string option"
  snippet :: "string option"
  fromEmail :: "string option"
  ownEmail :: string
  userId :: string

definition index_key :: "email_doc \<Rightarrow> string \<times> string option \<times> string option" where
  "index_key d = (userId d, subject d, snippet d)"

definition unique_index :: "email_doc list \<Rightarrow> bool" where
  "unique_index ds = distinct (map index_key ds)"

text \<open>ReplySchema, without the timestamps: \<^verbatim>\<open>userEmail\<close> is required.\<close>

record reply_doc =
  body :: string
  userEmail :: string

section \<open>Responses, console, calls and the state\<close>

datatype payload =
    JsonString string
  | JsonThreads "thread list"
  | JsonMessage string
  | JsonValue string
  | RawBody "string option"

record response =
  status :: nat
  content :: payload

text \<open>
  What a handler run ends in. Express sends nothing unless the handler writes to
  \<^verbatim>\<open>res\<close>: a handler that resolves with a value (\<open>Returned\<close>) or rejects
  (\<open>Rejected\<close>) leaves the request without a response.
\<close>

datatype handler_value = ValTrue | ValReplies "reply_doc list"

datatype outcome =
    Responded response
  | Returned handler_value
  | Rejected js_error

fun http_response :: "outcome \<Rightarrow> response option" where
  "http_response (Responded r) = Some r"
| "http_response (Returned v) = None"
| "http_response (Rejected e) = None"

datatype log_entry =
    ConsoleLog string
  | ConsoleLogValue string string
  | ConsoleError string js_error

datatype call =
    ThreadsList string nat bool
  | MessagesFind string "string option"
  | FilesFind string "string option"
  | FileDownload string
  | EmailsCreate email_doc
  | EmailsFind string
  | CreateCompletion string
  | ReplyCreate reply_doc
  | ReplyFind string

text \<open>
  A suspended continuation of the reply-generation callback: the completion request of
  the record at position \<open>task_index\<close> has been sent, and the rest of the callback
  (lines 215-219) runs when it settles.
\<close>

record task =
  task_index :: nat
  task_prompt :: string
  task_userEmail :: string

record state =
  emails_coll :: "email_doc list"
  reply_coll :: "reply_doc list"
  console :: "log_entry list"
  calls :: "call list"
  pending :: "task list"
  rejections :: "js_error list"

definition initial_state :: state where
  "initial_state = \<lparr>emails_coll = [], reply_coll = [], console = [], calls = [],
     pending = [], rejections = []\<rparr>"

text \<open>
  Everything outside \<^verbatim>\<open>src/\<close> is a parameter: the credential store
  (\<^verbatim>\<open>./utils/mock-db\<close>, \<open>findUser\<close>), the mailbox gateway, the completion engine and
  the failures the document store injects into a read or a write. The i-th item of a
  batch has its own answer, so that items fail independently. \<open>driver_error_name\<close> is
  the \<^verbatim>\<open>name\<close> the installed driver gives a duplicate-key error (code 11000).
\<close>

record env =
  findUser :: "string \<Rightarrow> user option"
  threads_list :: "string \<Rightarrow> nat \<Rightarrow> bool \<Rightarrow> js_error + thread list"
  messages_find :: "string \<Rightarrow> string option \<Rightarrow> js_error + string"
  files_find :: "string \<Rightarrow> string option \<Rightarrow> js_error + string"
  file_download :: "string \<Rightarrow> js_error + string option"
  createCompletion :: "nat \<Rightarrow> string \<Rightarrow> js_error + string list"
  emails_create_fault :: "nat \<Rightarrow> js_error option"
  emails_find_fault :: "js_error option"
  reply_create_fault :: "nat \<Rightarrow> js_error option"
  reply_find_fault :: "js_error option"
  driver_error_name :: string

record request =
  authorization :: "string option"
  query_id :: "string option"

definition add_call :: "call \<Rightarrow> state \<Rightarrow> state" where
  "add_call c s = s\<lparr>calls := calls s @ [c]\<rparr>"

definition add_log :: "log_entry \<Rightarrow> state \<Rightarrow> state" where
  "add_log l s = s\<lparr>console := console s @ [l]\<rparr>"

section \<open>The authentication middleware\<close>

text \<open>
  \<^verbatim>\<open>isAuthenticated\<close> (lines 119-135): a falsy header (absent or empty) and a header
  the credential store does not resolve both answer 401 \<^verbatim>\<open>'Unauthorized'\<close> without
  calling \<^verbatim>\<open>next()\<close>.
\<close>

definition unauthorized :: response where
  "unauthorized = \<lparr>status = 401, content = JsonString ''Unauthorized''\<rparr>"

definition isAuthenticated :: "env \<Rightarrow> request \<Rightarrow> response + user" where
  "isAuthenticated env req =
     (case authorization req of
        None \<Rightarrow> Inl unauthorized
      | Some h \<Rightarrow>
          if h = [] then Inl unauthorized
          else (case findUser env h of
                  None \<Rightarrow> Inl unauthorized
                | Some u \<Rightarrow> Inr u))"

definition protected ::
  "(user \<Rightarrow> request \<Rightarrow> state \<Rightarrow> outcome \<times> state) \<Rightarrow> env \<Rightarrow> request \<Rightarrow> state \<Rightarrow> outcome \<times> state" where
  "protected handler env req s =
     (case isAuthenticated env req of
        Inl r \<Rightarrow> (Responded r, s)
      | Inr u \<Rightarrow> handler u req s)"

section \<open>Ingestion: \<^verbatim>\<open>/nylas/read-emails\<close>\<close>

text \<open>
  \<^verbatim>\<open>emails.create(doc)\<close>: the store either fails with the injected error, or rejects a
  document whose index key is already present with the driver's error 11000, or appends
  the document.
\<close>

definition duplicate_key_error :: "env \<Rightarrow> js_error" where
  "duplicate_key_error env = JsError (driver_error_name env) (Some 11000)"

definition emails_create :: "env \<Rightarrow> nat \<Rightarrow> email_doc \<Rightarrow> state \<Rightarrow> (js_error + unit) \<times> state" where
  "emails_create env i doc s =
     (let s1 = add_call (EmailsCreate doc) s in
      case emails_create_fault env i of
        Some e \<Rightarrow> (Inl e, s1)
      | None \<Rightarrow>
          if index_key doc \<in> set (map index_key (emails_coll s1))
          then (Inl (duplicate_key_error env), s1)
          else (Inr (), s1\<lparr>emails_coll := emails_coll s1 @ [doc]\<rparr>))"

text \<open>\<^verbatim>\<open>thread.messages[0].from[0].email\<close>: reading a property of \<^verbatim>\<open>undefined\<close> throws.\<close>

definition first_sender_email :: "thread \<Rightarrow> js_error + string option" where
  "first_sender_email t =
     (case messages t of
        None \<Rightarrow> Inl TypeError
      | Some [] \<Rightarrow> Inl TypeError
      | Some (m # _) \<Rightarrow>
          (case from_field m of
             None \<Rightarrow> Inl TypeError
           | Some [] \<Rightarrow> Inl TypeError
           | Some (p # _) \<Rightarrow> Inr (email p)))"

definition email_record :: "user \<Rightarrow> thread \<Rightarrow> js_error + email_doc" where
  "email_record u t =
     (case first_sender_email t of
        Inl e \<Rightarrow> Inl e
      | Inr f \<Rightarrow> Inr \<lparr>subject = thread_subject t, snippet = thread_snippet t,
                      fromEmail = f, ownEmail = emailAddress u, userId = user_id u\<rparr>)"

datatype settled = Fulfilled | Failed js_error

text \<open>The catch block of the callback (lines 153-159).\<close>

definition catch_entry :: "js_error \<Rightarrow> log_entry" where
  "catch_entry e =
     (if error_name e = ''MongoError'' \<and> error_code e = Some 11000
      then ConsoleLog ''Email with the same subject and snippet already exists''
      else ConsoleError ''Unexpected error:'' e)"

definition create_catch :: "js_error \<Rightarrow> state \<Rightarrow> settled \<times> state" where
  "create_catch e s = (Fulfilled, add_log (catch_entry e) s)"

text \<open>
  The async callback given to \<^verbatim>\<open>threads.map\<close> (lines 144-160), for the i-th thread.
  The callbacks are started in list order; the store checks the index and inserts in
  one atomic step, and the model lets the writes reach the store in the order in
  which they were sent.
\<close>

definition create_email :: "env \<Rightarrow> user \<Rightarrow> nat \<Rightarrow> thread \<Rightarrow> state \<Rightarrow> settled \<times> state" where
  "create_email env u i t s =
     (case email_record u t of
        Inl e \<Rightarrow> create_catch e s
      | Inr doc \<Rightarrow>
          (case emails_create env i doc s of
             (Inl e, s1) \<Rightarrow> create_catch e s1
           | (Inr _, s1) \<Rightarrow> (Fulfilled, s1)))"

fun createEmailPromises ::
  "env \<Rightarrow> user \<Rightarrow> nat \<Rightarrow> thread list \<Rightarrow> state \<Rightarrow> settled list \<times> state" where
  "createEmailPromises env u i [] s = ([], s)"
| "createEmailPromises env u i (t # ts) s =
     (case create_email env u i t s of
        (r, s1) \<Rightarrow>
          (case createEmailPromises env u (Suc i) ts s1 of
             (rs, s2) \<Rightarrow> (r # rs, s2)))"

text \<open>\<^verbatim>\<open>Promise.all\<close> rejects with the first rejection of its members.\<close>

fun promise_all :: "settled list \<Rightarrow> js_error + unit" where
  "promise_all [] = Inr ()"
| "promise_all (Fulfilled # rs) = promise_all rs"
| "promise_all (Failed e # rs) = Inl e"

text \<open>The try/catch around the aggregate wait (lines 162-168).\<close>

definition await_all :: "settled list \<Rightarrow> thread list \<Rightarrow> state \<Rightarrow> outcome \<times> state" where
  "await_all ps threads s =
     (case promise_all ps of
        Inr _ \<Rightarrow> (Responded \<lparr>status = 201, content = JsonThreads threads\<rparr>, s)
      | Inl e \<Rightarrow>
          (Responded \<lparr>status = 500, content = JsonMessage ''Internal server error''\<rparr>,
           add_log (ConsoleError ''Error in Promise.all:'' e) s))"

definition read_emails :: "env \<Rightarrow> user \<Rightarrow> request \<Rightarrow> state \<Rightarrow> outcome \<times> state" where
  "read_emails env u req s =
     (let s0 = add_call (ThreadsList (accessToken u) 5 True) s in
      case threads_list env (accessToken u) 5 True of
        Inl e \<Rightarrow> (Rejected e, s0)
      | Inr threads \<Rightarrow>
          (case createEmailPromises env u 0 threads s0 of
             (ps, s1) \<Rightarrow> await_all ps threads s1))"

section \<open>Single message and file download\<close>

text \<open>
  \<^verbatim>\<open>/nylas/message\<close> and \<^verbatim>\<open>/nylas/file\<close> (lines 172-191). Neither has a try block:
  a gateway failure rejects the handler. \<^verbatim>\<open>res.json\<close> and \<^verbatim>\<open>res.end\<close> answer with
  the default status 200.
\<close>

definition message_handler :: "env \<Rightarrow> user \<Rightarrow> request \<Rightarrow> state \<Rightarrow> outcome \<times> state" where
  "message_handler env u req s =
     (let s0 = add_call (MessagesFind (accessToken u) (query_id req)) s in
      case messages_find env (accessToken u) (query_id req) of
        Inl e \<Rightarrow> (Rejected e, s0)
      | Inr m \<Rightarrow> (Responded \<lparr>status = 200, content = JsonValue m\<rparr>, s0))"

definition file_handler :: "env \<Rightarrow> user \<Rightarrow> request \<Rightarrow> state \<Rightarrow> outcome \<times> state" where
  "file_handler env u req s =
     (let s0 = add_call (FilesFind (accessToken u) (query_id req)) s in
      case files_find env (accessToken u) (query_id req) of
        Inl e \<Rightarrow> (Rejected e, s0)
      | Inr f \<Rightarrow>
          (let s1 = add_call (FileDownload f) s0 in
           case file_download env f of
             Inl e \<Rightarrow> (Rejected e, s1)
           | Inr data \<Rightarrow> (Responded \<lparr>status = 200, content = RawBody data\<rparr>, s1)))"

section \<open>Reply generation: \<^verbatim>\<open>/nylas/read-email-gpt\<close>\<close>

definition emails_find :: "env \<Rightarrow> string \<Rightarrow> state \<Rightarrow> (js_error + email_doc list) \<times> state" where
  "emails_find env own s =
     (let s1 = add_call (EmailsFind own) s in
      case emails_find_fault env of
        Some e \<Rightarrow> (Inl e, s1)
      | None \<Rightarrow> (Inr (filter (\<lambda>d. ownEmail d = own) (emails_coll s1)), s1))"

text \<open>
  \<^verbatim>\<open>reply.create(doc)\<close>: the schema's \<^verbatim>\<open>required: true\<close> on \<^verbatim>\<open>userEmail\<close> rejects an
  empty string; otherwise the store fails with the injected error or appends.
\<close>

definition reply_create :: "env \<Rightarrow> nat \<Rightarrow> reply_doc \<Rightarrow> state \<Rightarrow> (js_error + unit) \<times> state" where
  "reply_create env i doc s =
     (let s1 = add_call (ReplyCreate doc) s in
      if userEmail doc = [] then (Inl ValidationError, s1)
      else (case reply_create_fault env i of
              Some e \<Rightarrow> (Inl e, s1)
            | None \<Rightarrow> (Inr (), s1\<lparr>reply_coll := reply_coll s1 @ [doc]\<rparr>)))"

text \<open>Template interpolation prints a missing field as \<^verbatim>\<open>undefined\<close>.\<close>

definition js_string :: "string option \<Rightarrow> string" where
  "js_string v = (case v of None \<Rightarrow> ''undefined'' | Some x \<Rightarrow> x)"

definition prompt :: "email_doc \<Rightarrow> string" where
  "prompt d =
     ''Subject: '' @ js_string (subject d) @ '' '' @ [CHR 0x0A] @ '',Body: ''
       @ js_string (snippet d) @ '','' @ [CHR 0x0A]
       @ '' Please write a reply for the given email with subject and body sperated''"

definition reply_task :: "user \<Rightarrow> nat \<Rightarrow> email_doc \<Rightarrow> task" where
  "reply_task u i d = \<lparr>task_index = i, task_prompt = prompt d, task_userEmail = emailAddress u\<rparr>"

text \<open>
  The \<^verbatim>\<open>forEach\<close> callback is async: it runs up to its first \<^verbatim>\<open>await\<close>, which sends
  the completion request, and is then suspended. \<^verbatim>\<open>forEach\<close> ignores the promise.
\<close>

definition dispatch_reply :: "user \<Rightarrow> nat \<Rightarrow> email_doc \<Rightarrow> state \<Rightarrow> state" where
  "dispatch_reply u i d s =
     (add_call (CreateCompletion (prompt d)) s)\<lparr>pending := pending s @ [reply_task u i d]\<rparr>"

fun dispatch_all :: "user \<Rightarrow> nat \<Rightarrow> email_doc list \<Rightarrow> state \<Rightarrow> state" where
  "dispatch_all u i [] s = s"
| "dispatch_all u i (d # ds) s = dispatch_all u (Suc i) ds (dispatch_reply u i d s)"

definition read_email_gpt :: "env \<Rightarrow> user \<Rightarrow> request \<Rightarrow> state \<Rightarrow> outcome \<times> state" where
  "read_email_gpt env u req s =
     (case emails_find env (emailAddress u) s of
        (Inl e, s1) \<Rightarrow> (Rejected e, s1)
      | (Inr allEmails, s1) \<Rightarrow> (Returned ValTrue, dispatch_all u 0 allEmails s1))"

text \<open>
  The continuation of one callback (lines 215-219), run when its completion settles;
  the write it awaits is taken in the same step. A failure rejects the callback's
  promise, which nothing observes; it is recorded in \<open>rejections\<close>. What the
  runtime does with an unhandled rejection is outside the model.
\<close>

definition reject :: "js_error \<Rightarrow> state \<Rightarrow> state" where
  "reject e s = s\<lparr>rejections := rejections s @ [e]\<rparr>"

definition settle_task :: "env \<Rightarrow> task \<Rightarrow> state \<Rightarrow> state" where
  "settle_task env t s =
     (let s0 = s\<lparr>pending := remove1 t (pending s)\<rparr> in
      case createCompletion env (task_index t) (task_prompt t) of
        Inl e \<Rightarrow> reject e s0
      | Inr [] \<Rightarrow> reject TypeError s0
      | Inr (text # _) \<Rightarrow>
          (let s1 = add_log (ConsoleLogValue ''this is response'' text) s0 in
           case reply_create env (task_index t) \<lparr>body = text, userEmail = task_userEmail t\<rparr> s1 of
             (Inl e, s2) \<Rightarrow> reject e s2
           | (Inr _, s2) \<Rightarrow> s2))"

fun settle_tasks :: "env \<Rightarrow> task list \<Rightarrow> state \<Rightarrow> state" where
  "settle_tasks env [] s = s"
| "settle_tasks env (t # ts) s = settle_tasks env ts (settle_task env t s)"

section \<open>Reply listing: \<^verbatim>\<open>/nylas/read-replies\<close>\<close>

definition reply_find :: "env \<Rightarrow> string \<Rightarrow> state \<Rightarrow> (js_error + reply_doc list) \<times> state" where
  "reply_find env own s =
     (let s1 = add_call (ReplyFind own) s in
      case reply_find_fault env of
        Some e \<Rightarrow> (Inl e, s1)
      | None \<Rightarrow> (Inr (filter (\<lambda>d. userEmail d = own) (reply_coll s1)), s1))"

text \<open>
  Lines 225-233. On success the handler does \<^verbatim>\<open>return replies\<close>. The catch block binds
  \<^verbatim>\<open>err\<close> but evaluates \<^verbatim>\<open>e.message\<close>: \<^verbatim>\<open>e\<close> is not declared, so the argument of
  \<^verbatim>\<open>console.error\<close> throws a ReferenceError before anything is printed.
\<close>

definition read_replies :: "env \<Rightarrow> user \<Rightarrow> request \<Rightarrow> state \<Rightarrow> outcome \<times> state" where
  "read_replies env u req s =
     (case reply_find env (emailAddress u) s of
        (Inr replies, s1) \<Rightarrow> (Returned (ValReplies replies), s1)
      | (Inl err, s1) \<Rightarrow> (Rejected ReferenceError, s1))"

section \<open>The router\<close>

datatype route = ReadEmails | Message | File | ReadEmailGpt | ReadReplies

fun handler_of :: "env \<Rightarrow> route \<Rightarrow> user \<Rightarrow> request \<Rightarrow> state \<Rightarrow> outcome \<times> state" where
  "handler_of env ReadEmails = read_emails env"
| "handler_of env Message = message_handler env"
| "handler_of env File = file_handler env"
| "handler_of env ReadEmailGpt = read_email_gpt env"
| "handler_of env ReadReplies = read_replies env"

definition handle :: "env \<Rightarrow> route \<Rightarrow> request \<Rightarrow> state \<Rightarrow> outcome \<times> state" where
  "handle env r req s = protected (handler_of env r) env req s"

text \<open>
  The states the server can be in: it starts with empty collections, serves requests
  and settles suspended callbacks, in any order and against any environment.
\<close>

inductive reachable :: "state \<Rightarrow> bool" where
  reachable_init: "reachable initial_state"
| reachable_request: "reachable s \<Longrightarrow> reachable (snd (handle env r req s))"
| reachable_settle: "reachable s \<Longrightarrow> t \<in> set (pending s) \<Longrightarrow> reachable (settle_task env t s)"

section \<open>Notions used in the statements\<close>

text \<open>The records of a batch that can be derived, in the order of the threads.\<close>

definition derivable_docs :: "user \<Rightarrow> thread list \<Rightarrow> email_doc list" where
  "derivable_docs u ts =
     List.map_filter (\<lambda>t. case email_record u t of Inl _ \<Rightarrow> None | Inr d \<Rightarrow> Some d) ts"

text \<open>
  The records archived under an account's email, the callbacks the handler suspends
  for them, the text a completion answers with (\<^verbatim>\<open>response.data.choices[0].text\<close>),
  the reply one callback stores, and when a callback runs to its end.
\<close>

definition archived_for :: "user \<Rightarrow> state \<Rightarrow> email_doc list" where
  "archived_for u s = filter (\<lambda>d. ownEmail d = emailAddress u) (emails_coll s)"

definition reply_tasks :: "user \<Rightarrow> nat \<Rightarrow> email_doc list \<Rightarrow> task list" where
  "reply_tasks u i ds = map (\<lambda>(j, d). reply_task u j d) (enumerate i ds)"

definition completion_text :: "env \<Rightarrow> nat \<Rightarrow> string \<Rightarrow> string option" where
  "completion_text env i p =
     (case createCompletion env i p of
        Inl e \<Rightarrow> None
      | Inr [] \<Rightarrow> None
      | Inr (text # _) \<Rightarrow> Some text)"

definition generated_reply :: "env \<Rightarrow> task \<Rightarrow> reply_doc" where
  "generated_reply env t =
     \<lparr>body = (case completion_text env (task_index t) (task_prompt t) of
                None \<Rightarrow> [] | Some text \<Rightarrow> text),
      userEmail = task_userEmail t\<rparr>"

definition reply_for :: "env \<Rightarrow> user \<Rightarrow> nat \<Rightarrow> email_doc \<Rightarrow> reply_doc" where
  "reply_for env u i d =
     \<lparr>body = (case completion_text env i (prompt d) of None \<Rightarrow> [] | Some text \<Rightarrow> text),
      userEmail = emailAddress u\<rparr>"

definition task_succeeds :: "env \<Rightarrow> task \<Rightarrow> bool" where
  "task_succeeds env t =
     (completion_text env (task_index t) (task_prompt t) \<noteq> None \<and>
      task_userEmail t \<noteq> [] \<and> reply_create_fault env (task_index t) = None)"

section \<open>A concrete deployment\<close>

text \<open>
  One stored credential (token \<open>tok1\<close>, account \<open>A\<close>), a gateway that
  answers with two well-formed threads, and stores that do not fail.
\<close>

definition alice :: user where
  "alice = \<lparr>user_id = ''A'', accessToken = ''at1'', emailAddress = ''a@x.com''\<rparr>"

definition bob :: participant where
  "bob = \<lparr>email = Some ''b@y.com''\<rparr>"

definition thread1 :: thread where
  "thread1 = \<lparr>thread_subject = Some ''Hi'', thread_snippet = Some ''Hello there'',
     messages = Some [\<lparr>from_field = Some [bob]\<rparr>]\<rparr>"

definition thread2 :: thread where
  "thread2 = \<lparr>thread_subject = Some ''Re'', thread_snippet = Some ''Second'',
     messages = Some [\<lparr>from_field = Some [bob]\<rparr>]\<rparr>"

definition thread_bad :: thread where
  "thread_bad = \<lparr>thread_subject = Some ''Odd'', thread_snippet = Some ''No sender'',
     messages = Some []\<rparr>"

definition network_error :: js_error where
  "network_error = JsError ''MongoNetworkError'' None"

definition env0 :: env where
  "env0 = \<lparr>findUser = (\<lambda>h. if h = ''tok1'' then Some alice else None),
     threads_list = (\<lambda>tok n e. Inr [thread1, thread2]),
     messages_find = (\<lambda>tok i. Inr ''message''),
     files_find = (\<lambda>tok i. Inr ''file''),
     file_download = (\<lambda>f. Inr (Some ''bytes'')),
     createCompletion = (\<lambda>i p. Inr [''Draft reply'']),
     emails_create_fault = (\<lambda>i. None),
     emails_find_fault = None,
     reply_create_fault = (\<lambda>i. None),
     reply_find_fault = None,
     driver_error_name = ''MongoError''\<rparr>"

definition req1 :: request where
  "req1 = \<lparr>authorization = Some ''tok1'', query_id = None\<rparr>"

definition req_anon :: request where
  "req_anon = \<lparr>authorization = None, query_id = None\<rparr>"

definition req_unknown :: request where
  "req_unknown = \<lparr>authorization = Some ''nobody'', query_id = None\<rparr>"

text \<open>
  The records of the two threads, the state after they have been ingested once, a
  store that fails the first write of a batch, a state where the second record is
  archived already, and a gateway that answers with a thread without messages.
\<close>

definition doc1 :: email_doc where
  "doc1 = \<lparr>subject = Some ''Hi'', snippet = Some ''Hello there'', fromEmail = Some ''b@y.com'',
     ownEmail = ''a@x.com'', userId = ''A''\<rparr>"

definition doc2 :: email_doc where
  "doc2 = \<lparr>subject = Some ''Re'', snippet = Some ''Second'', fromEmail = Some ''b@y.com'',
     ownEmail = ''a@x.com'', userId = ''A''\<rparr>"

definition state1 :: state where
  "state1 = \<lparr>emails_coll = [doc1, doc2], reply_coll = [], console = [],
     calls = [ThreadsList ''at1'' 5 True, EmailsCreate doc1, EmailsCreate doc2],
     pending = [], rejections = []\<rparr>"

definition env_faulty :: env where
  "env_faulty = env0\<lparr>emails_create_fault := (\<lambda>i. if i = 0 then Some network_error else None)\<rparr>"

definition state_dup :: state where
  "state_dup = initial_state\<lparr>emails_coll := [doc2]\<rparr>"

definition env_bad :: env where
  "env_bad = env0\<lparr>threads_list := (\<lambda>tok n e. Inr [thread_bad, thread1])\<rparr>"

text \<open>
  A reply archive with one reply of the account and one of somebody else, an email
  archive with a single record, and stores that fail the reply read, every reply
  write or the email read.
\<close>

definition reply1 :: reply_doc where
  "reply1 = \<lparr>body = ''Draft reply'', userEmail = ''a@x.com''\<rparr>"

definition reply_other :: reply_doc where
  "reply_other = \<lparr>body = ''Other'', userEmail = ''c@z.com''\<rparr>"

definition state_replies :: state where
  "state_replies = initial_state\<lparr>reply_coll := [reply1, reply_other]\<rparr>"

definition state_one :: state where
  "state_one = initial_state\<lparr>emails_coll := [doc1]\<rparr>"

definition env_read_fail :: env where
  "env_read_fail = env0\<lparr>reply_find_fault := Some network_error\<rparr>"

definition env_write_fail :: env where
  "env_write_fail = env0\<lparr>reply_create_fault := (\<lambda>i. Some network_error)\<rparr>"

definition env_find_fail :: env where
  "env_find_fail = env0\<lparr>emails_find_fault := Some network_error\<rparr>"

section \<open>Basic facts about the ingestion batch\<close>

lemma add_call_fields [simp]:
  "emails_coll (add_call c s) = emails_coll s"
  "reply_coll (add_call c s) = reply_coll s"
  "console (add_call c s) = console s"
  "calls (add_call c s) = calls s @ [c]"
  "pending (add_call c s) = pending s"
  "rejections (add_call c s) = rejections s"
  by (simp_all add: add_call_def)

lemma add_log_fields [simp]:
  "emails_coll (add_log l s) = emails_coll s"
  "reply_coll (add_log l s) = reply_coll s"
  "console (add_log l s) = console s @ [l]"
  "calls (add_log l s) = calls s"
  "pending (add_log l s) = pending s"
  "rejections (add_log l s) = rejections s"
  by (simp_all add: add_log_def)

lemma emails_create_cases:
  "emails_create env i doc s =
     (if emails_create_fault env i = None \<and> index_key doc \<notin> index_key ` set (emails_coll s)
      then (Inr (), (add_call (EmailsCreate doc) s)\<lparr>emails_coll := emails_coll s @ [doc]\<rparr>)
      else (Inl (case emails_create_fault env i of Some e \<Rightarrow> e | None \<Rightarrow> duplicate_key_error env),
            add_call (EmailsCreate doc) s))"
  by (simp add: emails_create_def Let_def split: option.splits)

lemma create_email_fulfilled: "fst (create_email env u i t s) = Fulfilled"
  by (simp add: create_email_def create_catch_def emails_create_cases split: sum.splits)

lemma createEmailPromises_fulfilled:
  "fst (createEmailPromises env u i ts s) = replicate (length ts) Fulfilled"
proof (induction ts arbitrary: i s)
  case Nil
  show ?case by simp
next
  case (Cons t ts)
  obtain r s1 where c: "create_email env u i t s = (r, s1)" by (cases "create_email env u i t s")
  obtain rs s2 where p: "createEmailPromises env u (Suc i) ts s1 = (rs, s2)"
    by (cases "createEmailPromises env u (Suc i) ts s1")
  from c have "r = Fulfilled" using create_email_fulfilled [of env u i t s] by simp
  moreover from p have "rs = replicate (length ts) Fulfilled"
    using Cons.IH [of "Suc i" s1] by simp
  ultimately show ?case using c p by simp
qed

lemma promise_all_replicate: "promise_all (replicate n Fulfilled) = Inr ()"
  by (induction n) simp_all

lemma create_email_calls:
  "calls (snd (create_email env u i t s)) =
     calls s @ (case email_record u t of Inl _ \<Rightarrow> [] | Inr d \<Rightarrow> [EmailsCreate d])"
  by (simp add: create_email_def create_catch_def emails_create_cases split: sum.splits)

lemma createEmailPromises_calls:
  "calls (snd (createEmailPromises env u i ts s)) =
     calls s @ map EmailsCreate (derivable_docs u ts)"
proof (induction ts arbitrary: i s)
  case Nil
  show ?case by (simp add: derivable_docs_def map_filter_simps)
next
  case (Cons t ts)
  obtain r s1 where c: "create_email env u i t s = (r, s1)" by (cases "create_email env u i t s")
  obtain rs s2 where p: "createEmailPromises env u (Suc i) ts s1 = (rs, s2)"
    by (cases "createEmailPromises env u (Suc i) ts s1")
  have "calls s1 = calls s @ (case email_record u t of Inl _ \<Rightarrow> [] | Inr d \<Rightarrow> [EmailsCreate d])"
    using create_email_calls [of env u i t s] c by simp
  moreover have "calls s2 = calls s1 @ map EmailsCreate (derivable_docs u ts)"
    using Cons.IH [of "Suc i" s1] p by simp
  ultimately show ?case using c p
    by (simp add: derivable_docs_def map_filter_simps split: sum.splits)
qed


lemma create_email_coll:
  "emails_coll (snd (create_email env u i t s)) =
     (case email_record u t of
        Inl _ \<Rightarrow> emails_coll s
      | Inr d \<Rightarrow>
          if emails_create_fault env i = None \<and> index_key d \<notin> index_key ` set (emails_coll s)
          then emails_coll s @ [d] else emails_coll s)"
  by (auto simp: create_email_def create_catch_def emails_create_cases split: sum.splits)

lemma create_email_others:
  "reply_coll (snd (create_email env u i t s)) = reply_coll s"
  "pending (snd (create_email env u i t s)) = pending s"
  "rejections (snd (create_email env u i t s)) = rejections s"
  by (simp_all add: create_email_def create_catch_def emails_create_cases split: sum.splits)

lemma create_email_unique:
  "unique_index (emails_coll s) \<Longrightarrow> unique_index (emails_coll (snd (create_email env u i t s)))"
  by (auto simp: create_email_coll unique_index_def split: sum.splits)

lemma create_email_prefix:
  "prefix (emails_coll s) (emails_coll (snd (create_email env u i t s)))"
  by (simp add: create_email_coll split: sum.splits)

lemma createEmailPromises_step:
  "snd (createEmailPromises env u i (t # ts) s) =
     snd (createEmailPromises env u (Suc i) ts (snd (create_email env u i t s)))"
  by (simp split: prod.splits)

lemma createEmailPromises_others:
  "reply_coll (snd (createEmailPromises env u i ts s)) = reply_coll s \<and>
   pending (snd (createEmailPromises env u i ts s)) = pending s \<and>
   rejections (snd (createEmailPromises env u i ts s)) = rejections s"
proof (induction ts arbitrary: i s)
  case Nil
  show ?case by simp
next
  case (Cons t ts)
  show ?case
    unfolding createEmailPromises_step
    using Cons.IH [of "Suc i" "snd (create_email env u i t s)"]
    by (simp add: create_email_others)
qed

lemma createEmailPromises_unique:
  "unique_index (emails_coll s) \<Longrightarrow>
   unique_index (emails_coll (snd (createEmailPromises env u i ts s)))"
proof (induction ts arbitrary: i s)
  case Nil
  then show ?case by simp
next
  case (Cons t ts)
  from Cons.prems have "unique_index (emails_coll (snd (create_email env u i t s)))"
    by (rule create_email_unique)
  then show ?case
    unfolding createEmailPromises_step by (rule Cons.IH)
qed

lemma createEmailPromises_prefix:
  "prefix (emails_coll s) (emails_coll (snd (createEmailPromises env u i ts s)))"
proof (induction ts arbitrary: i s)
  case Nil
  show ?case by simp
next
  case (Cons t ts)
  have "prefix (emails_coll s) (emails_coll (snd (create_email env u i t s)))"
    by (rule create_email_prefix)
  also have "prefix \<dots> (emails_coll (snd (createEmailPromises env u (Suc i) ts
      (snd (create_email env u i t s)))))"
    by (rule Cons.IH)
  finally show ?case
    unfolding createEmailPromises_step .
qed

text \<open>A batch whose derivable records are all archived already adds nothing.\<close>

lemma createEmailPromises_noop:
  "index_key ` set (derivable_docs u ts) \<subseteq> index_key ` set (emails_coll s) \<Longrightarrow>
   emails_coll (snd (createEmailPromises env u i ts s)) = emails_coll s"
proof (induction ts arbitrary: i s)
  case Nil
  show ?case by simp
next
  case (Cons t ts)
  have same: "emails_coll (snd (create_email env u i t s)) = emails_coll s"
    using Cons.prems
    by (auto simp: create_email_coll derivable_docs_def map_filter_simps split: sum.splits)
  have "index_key ` set (derivable_docs u ts) \<subseteq> index_key ` set (emails_coll s)"
    using Cons.prems
    by (auto simp: derivable_docs_def map_filter_simps split: sum.splits)
  then have "emails_coll (snd (createEmailPromises env u (Suc i) ts (snd (create_email env u i t s))))
      = emails_coll (snd (create_email env u i t s))"
    using Cons.IH [of "snd (create_email env u i t s)" "Suc i"] same by simp
  then show ?case
    unfolding createEmailPromises_step using same by simp
qed

text \<open>Without injected failures every derivable record is archived after the batch.\<close>

lemma createEmailPromises_archived:
  "\<forall>i. emails_create_fault env i = None \<Longrightarrow>
   index_key ` set (derivable_docs u ts) \<subseteq>
     index_key ` set (emails_coll (snd (createEmailPromises env u i ts s)))"
proof (induction ts arbitrary: i s)
  case Nil
  show ?case by (simp add: derivable_docs_def map_filter_simps)
next
  case (Cons t ts)
  let ?s1 = "snd (create_email env u i t s)"
  let ?s2 = "snd (createEmailPromises env u (Suc i) ts ?s1)"
  have tail: "index_key ` set (derivable_docs u ts) \<subseteq> index_key ` set (emails_coll ?s2)"
    using Cons.IH [OF Cons.prems] .
  have "set (emails_coll ?s1) \<subseteq> set (emails_coll ?s2)"
    using createEmailPromises_prefix [of ?s1 env u "Suc i" ts] by (rule set_mono_prefix)
  moreover have "\<And>d. email_record u t = Inr d \<Longrightarrow> index_key d \<in> index_key ` set (emails_coll ?s1)"
    using Cons.prems by (auto simp: create_email_coll)
  ultimately have hd: "\<And>d. email_record u t = Inr d \<Longrightarrow> index_key d \<in> index_key ` set (emails_coll ?s2)"
    by blast
  show ?case
    unfolding createEmailPromises_step using tail hd
    by (auto simp: derivable_docs_def map_filter_simps split: sum.splits)
qed

lemma read_emails_fetched:
  assumes "threads_list env (accessToken u) 5 True = Inr ths"
  shows "read_emails env u req s =
     (Responded \<lparr>status = 201, content = JsonThreads ths\<rparr>,
      snd (createEmailPromises env u 0 ths (add_call (ThreadsList (accessToken u) 5 True) s)))"
proof -
  let ?s0 = "add_call (ThreadsList (accessToken u) 5 True) s"
  obtain ps s1 where p: "createEmailPromises env u 0 ths ?s0 = (ps, s1)"
    by (cases "createEmailPromises env u 0 ths ?s0")
  then have "ps = replicate (length ths) Fulfilled"
    using createEmailPromises_fulfilled [of env u 0 ths ?s0] by simp
  then have "promise_all ps = Inr ()"
    by (simp add: promise_all_replicate)
  then show ?thesis
    using assms p by (simp add: read_emails_def Let_def await_all_def)
qed

lemma read_emails_failed:
  "threads_list env (accessToken u) 5 True = Inl e \<Longrightarrow>
   read_emails env u req s = (Rejected e, add_call (ThreadsList (accessToken u) 5 True) s)"
  by (simp add: read_emails_def Let_def)

lemma handle_authenticated:
  "isAuthenticated env req = Inr u \<Longrightarrow> handle env r req s = handler_of env r u req s"
  by (simp add: handle_def protected_def)

lemma isAuthenticated_req1: "isAuthenticated env0 req1 = Inr alice"
  by (simp add: isAuthenticated_def env0_def req1_def)

lemma read_emails_calls:
  assumes "threads_list env (accessToken u) 5 True = Inr ths"
  shows "calls (snd (read_emails env u req s)) =
     calls s @ ThreadsList (accessToken u) 5 True # map EmailsCreate (derivable_docs u ths)"
  by (simp add: read_emails_fetched [OF assms] createEmailPromises_calls)

lemma create_email_failed:
  assumes "email_record u t = Inr d" and "emails_create env i d s0 = (Inl e, s1)"
  shows "create_email env u i t s0 = (Fulfilled, add_log (catch_entry e) s1)"
  using assms by (simp add: create_email_def create_catch_def)

lemma emails_create_duplicate:
  assumes "emails_create_fault env i = None"
    and "index_key d \<in> index_key ` set (emails_coll s0)"
  shows "emails_create env i d s0 = (Inl (duplicate_key_error env), add_call (EmailsCreate d) s0)"
  using assms by (simp add: emails_create_cases)

lemma first_sender_email_malformed:
  assumes "messages t = None \<or> messages t = Some [] \<or>
     (\<exists>m ms. messages t = Some (m # ms) \<and> (from_field m = None \<or> from_field m = Some []))"
  shows "first_sender_email t = Inl TypeError"
  using assms by (auto simp: first_sender_email_def)

lemma derivable_docs_simps:
  "derivable_docs u [] = []"
  "derivable_docs u (t # ts) =
     (case email_record u t of Inl _ \<Rightarrow> derivable_docs u ts | Inr d \<Rightarrow> d # derivable_docs u ts)"
  by (simp_all add: derivable_docs_def map_filter_simps split: sum.splits)

lemma derivable_docs_removeAll:
  "email_record u t = Inl e \<Longrightarrow> derivable_docs u (removeAll t ths) = derivable_docs u ths"
  by (induction ths) (auto simp: derivable_docs_simps split: sum.splits)

lemma catch_entry_TypeError: "catch_entry TypeError = ConsoleError ''Unexpected error:'' TypeError"
  by (simp add: catch_entry_def TypeError_def)

section \<open>The email archive across all operations\<close>

lemma read_emails_coll:
  "emails_coll (snd (read_emails env u req s)) =
     (case threads_list env (accessToken u) 5 True of
        Inl e \<Rightarrow> emails_coll s
      | Inr ths \<Rightarrow> emails_coll (snd (createEmailPromises env u 0 ths
                    (add_call (ThreadsList (accessToken u) 5 True) s))))"
  by (cases "threads_list env (accessToken u) 5 True")
    (simp_all add: read_emails_fetched read_emails_failed)

lemma read_emails_unique:
  "unique_index (emails_coll s) \<Longrightarrow> unique_index (emails_coll (snd (read_emails env u req s)))"
  using createEmailPromises_unique [of "add_call (ThreadsList (accessToken u) 5 True) s" env u 0]
  by (simp add: read_emails_coll split: sum.splits)

lemma read_emails_prefix:
  "prefix (emails_coll s) (emails_coll (snd (read_emails env u req s)))"
  using createEmailPromises_prefix [of "add_call (ThreadsList (accessToken u) 5 True) s" env u 0]
  by (simp add: read_emails_coll split: sum.splits)

lemma message_handler_coll: "emails_coll (snd (message_handler env u req s)) = emails_coll s"
  by (simp add: message_handler_def Let_def split: sum.splits)

lemma file_handler_coll: "emails_coll (snd (file_handler env u req s)) = emails_coll s"
  by (simp add: file_handler_def Let_def split: sum.splits)

lemma dispatch_all_colls:
  "emails_coll (dispatch_all u i ds s) = emails_coll s \<and>
   reply_coll (dispatch_all u i ds s) = reply_coll s"
  by (induction ds arbitrary: i s) (simp_all add: dispatch_reply_def)

lemma read_email_gpt_coll: "emails_coll (snd (read_email_gpt env u req s)) = emails_coll s"
  by (simp add: read_email_gpt_def emails_find_def Let_def dispatch_all_colls split: option.splits)

lemma read_replies_coll: "emails_coll (snd (read_replies env u req s)) = emails_coll s"
  by (simp add: read_replies_def reply_find_def Let_def split: option.splits)

lemma settle_task_coll: "emails_coll (settle_task env t s) = emails_coll s"
  by (simp add: settle_task_def reply_create_def reject_def Let_def
      split: sum.splits list.splits option.splits)

lemma handle_unique:
  assumes "unique_index (emails_coll s)"
  shows "unique_index (emails_coll (snd (handle env r req s)))"
proof (cases "isAuthenticated env req")
  case (Inl a)
  then show ?thesis using assms by (simp add: handle_def protected_def)
next
  case (Inr u)
  then have "handle env r req s = handler_of env r u req s"
    by (rule handle_authenticated)
  then show ?thesis using assms
    by (cases r) (simp_all add: read_emails_unique message_handler_coll file_handler_coll
        read_email_gpt_coll read_replies_coll)
qed

lemma handle_prefix:
  "prefix (emails_coll s) (emails_coll (snd (handle env r req s)))"
proof (cases "isAuthenticated env req")
  case (Inl a)
  then show ?thesis by (simp add: handle_def protected_def)
next
  case (Inr u)
  then have "handle env r req s = handler_of env r u req s"
    by (rule handle_authenticated)
  then show ?thesis
    by (cases r) (simp_all add: read_emails_prefix message_handler_coll file_handler_coll
        read_email_gpt_coll read_replies_coll)
qed

lemma reachable_unique: "reachable s \<Longrightarrow> unique_index (emails_coll s)"
proof (induction rule: reachable.induct)
  case reachable_init
  show ?case by (simp add: initial_state_def unique_index_def)
next
  case (reachable_request s env r req)
  then show ?case by (simp add: handle_unique)
next
  case (reachable_settle s t env)
  then show ?case by (simp add: settle_task_coll)
qed

lemma read_emails_twice:
  assumes "threads_list env (accessToken u) 5 True = Inr ths"
    and "\<forall>i. emails_create_fault env i = None"
    and "threads_list env' (accessToken u) 5 True = Inr ths"
  shows "emails_coll (snd (read_emails env' u req' (snd (read_emails env u req s)))) =
         emails_coll (snd (read_emails env u req s))"
proof -
  let ?s1 = "snd (read_emails env u req s)"
  have "index_key ` set (derivable_docs u ths) \<subseteq> index_key ` set (emails_coll ?s1)"
    using createEmailPromises_archived [OF assms(2)] by (simp add: read_emails_fetched [OF assms(1)])
  then have "index_key ` set (derivable_docs u ths) \<subseteq>
      index_key ` set (emails_coll (add_call (ThreadsList (accessToken u) 5 True) ?s1))"
    by simp
  then have "emails_coll (snd (createEmailPromises env' u 0 ths
      (add_call (ThreadsList (accessToken u) 5 True) ?s1))) = emails_coll ?s1"
    using createEmailPromises_noop [of u ths "add_call (ThreadsList (accessToken u) 5 True) ?s1" env' 0]
    by simp
  then show ?thesis
    by (simp add: read_emails_fetched [OF assms(3)])
qed

lemma create_email_archived:
  assumes "email_record u t = Inr d" and "index_key d \<in> index_key ` set (emails_coll s)"
  shows "emails_coll (snd (create_email env u i t s)) = emails_coll s"
  using assms by (simp add: create_email_coll)

section \<open>Evaluating the concrete deployment\<close>

lemmas scenario_defs = alice_def bob_def thread1_def thread2_def thread_bad_def network_error_def
  env0_def req1_def req_anon_def req_unknown_def doc1_def doc2_def state1_def env_faulty_def
  state_dup_def initial_state_def

lemmas ingest_defs = handle_def protected_def isAuthenticated_def read_emails_def
  create_email_def create_catch_def catch_entry_def emails_create_def email_record_def
  first_sender_email_def duplicate_key_error_def await_all_def add_call_def add_log_def
  index_key_def Let_def

lemma ingest_once: "handle env0 ReadEmails req1 initial_state =
  (Responded \<lparr>status = 201, content = JsonThreads [thread1, thread2]\<rparr>, state1)"
  by (simp add: ingest_defs scenario_defs)

lemma ingest_again: "handle env_faulty ReadEmails req1 state1 =
  (Responded \<lparr>status = 201, content = JsonThreads [thread1, thread2]\<rparr>,
   state1\<lparr>console := [ConsoleError ''Unexpected error:'' network_error,
              ConsoleLog ''Email with the same subject and snippet already exists''],
     calls := calls state1 @ [ThreadsList ''at1'' 5 True, EmailsCreate doc1, EmailsCreate doc2]\<rparr>)"
  by (simp add: ingest_defs scenario_defs)

lemma isAuthenticated_faulty: "isAuthenticated env_faulty req1 = Inr alice"
  by (simp add: isAuthenticated_def scenario_defs)

lemma email_record_thread1: "email_record alice thread1 = Inr doc1"
  by (simp add: email_record_def first_sender_email_def scenario_defs)

lemma email_record_thread2: "email_record alice thread2 = Inr doc2"
  by (simp add: email_record_def first_sender_email_def scenario_defs)

section \<open>Basic facts about reply generation and listing\<close>

lemma dispatch_all_pending:
  "pending (dispatch_all u i ds s) = pending s @ reply_tasks u i ds"
  by (induction ds arbitrary: i s)
    (simp_all add: reply_tasks_def dispatch_reply_def add_call_def)

lemma dispatch_all_calls:
  "calls (dispatch_all u i ds s) = calls s @ map (\<lambda>d. CreateCompletion (prompt d)) ds"
  by (induction ds arbitrary: i s) (simp_all add: dispatch_reply_def add_call_def)

lemma dispatch_all_others:
  "console (dispatch_all u i ds s) = console s \<and> rejections (dispatch_all u i ds s) = rejections s"
  by (induction ds arbitrary: i s) (simp_all add: dispatch_reply_def add_call_def)

lemma read_email_gpt_found:
  assumes "emails_find_fault env = None"
  shows "read_email_gpt env u req s =
     (Returned ValTrue,
      dispatch_all u 0 (archived_for u s) (add_call (EmailsFind (emailAddress u)) s))"
  using assms by (simp add: read_email_gpt_def emails_find_def archived_for_def Let_def)

lemma settle_task_succeeds:
  assumes "task_succeeds env t"
  shows "reply_coll (settle_task env t s) = reply_coll s @ [generated_reply env t]"
  using assms
  by (auto simp: task_succeeds_def settle_task_def reply_create_def generated_reply_def
      completion_text_def Let_def split: sum.splits list.splits)

lemma settle_tasks_succeed:
  "\<forall>t \<in> set ts. task_succeeds env t \<Longrightarrow>
   reply_coll (settle_tasks env ts s) = reply_coll s @ map (generated_reply env) ts"
  by (induction ts arbitrary: s) (simp_all add: settle_task_succeeds)

lemma settle_tasks_mset:
  assumes "\<forall>t \<in> set ts. task_succeeds env t" and "mset sched = mset ts"
  shows "mset (reply_coll (settle_tasks env sched s)) =
         mset (reply_coll s) + mset (map (generated_reply env) ts)"
proof -
  have "set sched = set ts" using assms(2) by (rule mset_eq_setD)
  then have "\<forall>t \<in> set sched. task_succeeds env t" using assms(1) by simp
  then have "reply_coll (settle_tasks env sched s) = reply_coll s @ map (generated_reply env) sched"
    by (rule settle_tasks_succeed)
  moreover have "mset (map (generated_reply env) sched) = mset (map (generated_reply env) ts)"
    using assms(2) by (metis mset_map)
  ultimately show ?thesis by simp
qed


lemma generated_reply_tasks:
  "map (generated_reply env) (reply_tasks u i ds) =
   map (\<lambda>(j, d). reply_for env u j d) (enumerate i ds)"
  by (simp add: reply_tasks_def generated_reply_def reply_for_def reply_task_def
      split_def comp_def)

lemma reply_tasks_succeed:
  assumes "emailAddress u \<noteq> []"
    and "\<forall>(j, d) \<in> set (enumerate i ds).
           completion_text env j (prompt d) \<noteq> None \<and> reply_create_fault env j = None"
  shows "\<forall>t \<in> set (reply_tasks u i ds). task_succeeds env t"
  using assms by (auto simp: reply_tasks_def task_succeeds_def reply_task_def)

lemma read_replies_found:
  assumes "isAuthenticated env req = Inr u" and "reply_find_fault env = None"
  shows "handle env ReadReplies req s =
     (Returned (ValReplies (filter (\<lambda>d. userEmail d = emailAddress u) (reply_coll s))),
      add_call (ReplyFind (emailAddress u)) s)"
  using assms by (simp add: handle_authenticated read_replies_def reply_find_def Let_def)

lemma read_replies_failed:
  assumes "isAuthenticated env req = Inr u" and "reply_find_fault env = Some e"
  shows "handle env ReadReplies req s =
     (Rejected ReferenceError, add_call (ReplyFind (emailAddress u)) s)"
  using assms by (simp add: handle_authenticated read_replies_def reply_find_def Let_def)

lemma read_email_gpt_returns:
  assumes "isAuthenticated env req = Inr u" and "emails_find_fault env = None"
  shows "handle env ReadEmailGpt req s =
     (Returned ValTrue,
      dispatch_all u 0 (archived_for u s) (add_call (EmailsFind (emailAddress u)) s))"
  using assms by (simp add: handle_authenticated read_email_gpt_found)

lemmas reply_defs = handle_def protected_def isAuthenticated_def read_email_gpt_def
  emails_find_def read_replies_def reply_find_def dispatch_reply_def settle_task_def
  reply_create_def reject_def add_call_def add_log_def Let_def

lemmas reply_scenario_defs = reply1_def reply_other_def state_replies_def state_one_def
  env_read_fail_def env_write_fail_def env_find_fail_def

lemma isAuthenticated_write_fail: "isAuthenticated env_write_fail req1 = Inr alice"
  by (simp add: isAuthenticated_def env_write_fail_def env0_def req1_def)

lemma archived_for_state1: "archived_for alice state1 = [doc1, doc2]"
  by (simp add: archived_for_def state1_def doc1_def doc2_def alice_def)

lemma completion_text_env0: "completion_text env0 i p = Some ''Draft reply''"
  by (simp add: completion_text_def env0_def)

section \<open>The authentication gate\<close>

text \<open>
  C2. A request to any of the five protected routes whose authorization header is
  absent, empty or not resolved by the credential store is answered with status 401
  and leaves the whole state as it was: no call to the gateway, the completion engine
  or a collection is made, and nothing is logged, stored or scheduled.
\<close>

theorem auth_gate:
  assumes "authorization req = None \<or> authorization req = Some [] \<or>
           (\<exists>h. authorization req = Some h \<and> findUser env h = None)"
  shows "handle env r req s = (Responded \<lparr>status = 401, content = JsonString ''Unauthorized''\<rparr>, s)"
  using assms
  by (auto simp: handle_def protected_def isAuthenticated_def unauthorized_def)

theorem auth_gate_witness:
  "handle env0 ReadReplies req_anon initial_state =
     (Responded \<lparr>status = 401, content = JsonString ''Unauthorized''\<rparr>, initial_state) \<and>
   handle env0 ReadEmails req_unknown initial_state =
     (Responded \<lparr>status = 401, content = JsonString ''Unauthorized''\<rparr>, initial_state)"
proof -
  have a: "authorization req_anon = None" by (simp add: req_anon_def)
  have b: "authorization req_unknown = Some ''nobody'' \<and> findUser env0 ''nobody'' = None"
    by (simp add: req_unknown_def env0_def)
  show ?thesis
    using auth_gate [of req_anon env0 ReadReplies initial_state]
      auth_gate [of req_unknown env0 ReadEmails initial_state] a b
    by blast
qed

section \<open>Uniqueness and idempotence of ingestion\<close>

text \<open>
  C1. No two archived email records share (userId, subject, snippet): the property
  holds in every reachable state, and every ingestion request preserves it, whatever
  the stores and the gateway do. Ingestion only appends to the archive. A thread whose
  record is archived already leaves the archive as it is, and a second ingestion of
  the same threads for the same account, after a first one in which no write was made
  to fail, adds nothing, whatever failures the second run meets.
\<close>

theorem email_archive_unique:
  "(reachable s \<longrightarrow> unique_index (emails_coll s)) \<and>
   (unique_index (emails_coll s0) \<longrightarrow>
      unique_index (emails_coll (snd (handle env ReadEmails req s0)))) \<and>
   prefix (emails_coll s0) (emails_coll (snd (handle env ReadEmails req s0))) \<and>
   (email_record u t = Inr d \<and> index_key d \<in> index_key ` set (emails_coll s0) \<longrightarrow>
      emails_coll (snd (create_email env u i t s0)) = emails_coll s0) \<and>
   (isAuthenticated env req = Inr u \<and> threads_list env (accessToken u) 5 True = Inr ths \<and>
    (\<forall>i. emails_create_fault env i = None) \<and>
    isAuthenticated env' req' = Inr u \<and> threads_list env' (accessToken u) 5 True = Inr ths \<longrightarrow>
      emails_coll (snd (handle env' ReadEmails req' (snd (handle env ReadEmails req s0)))) =
      emails_coll (snd (handle env ReadEmails req s0)))"
proof (intro conjI impI)
  assume "reachable s"
  then show "unique_index (emails_coll s)" by (rule reachable_unique)
next
  assume "unique_index (emails_coll s0)"
  then show "unique_index (emails_coll (snd (handle env ReadEmails req s0)))"
    by (rule handle_unique)
next
  show "prefix (emails_coll s0) (emails_coll (snd (handle env ReadEmails req s0)))"
    by (rule handle_prefix)
next
  assume "email_record u t = Inr d \<and> index_key d \<in> index_key ` set (emails_coll s0)"
  then show "emails_coll (snd (create_email env u i t s0)) = emails_coll s0"
    by (simp add: create_email_archived)
next
  assume a: "isAuthenticated env req = Inr u \<and> threads_list env (accessToken u) 5 True = Inr ths \<and>
    (\<forall>i. emails_create_fault env i = None) \<and>
    isAuthenticated env' req' = Inr u \<and> threads_list env' (accessToken u) 5 True = Inr ths"
  then have "handle env ReadEmails req s0 = read_emails env u req s0"
    and "\<And>s. handle env' ReadEmails req' s = read_emails env' u req' s"
    by (simp_all add: handle_authenticated)
  then show "emails_coll (snd (handle env' ReadEmails req' (snd (handle env ReadEmails req s0)))) =
      emails_coll (snd (handle env ReadEmails req s0))"
    using a by (simp add: read_emails_twice)
qed

theorem email_archive_unique_witness:
  "reachable state1 \<and> unique_index (emails_coll state1) \<and>
   unique_index (emails_coll (snd (handle env_faulty ReadEmails req1 state1))) \<and>
   emails_coll (snd (create_email env_faulty alice 1 thread1 state1)) = emails_coll state1 \<and>
   emails_coll (snd (handle env_faulty ReadEmails req1 state1)) = [doc1, doc2]"
proof -
  have r: "reachable state1"
    using reachable_request [OF reachable_init, of env0 ReadEmails req1] by (simp add: ingest_once)
  have a: "isAuthenticated env0 req1 = Inr alice \<and>
      threads_list env0 (accessToken alice) 5 True = Inr [thread1, thread2] \<and>
      (\<forall>i. emails_create_fault env0 i = None) \<and>
      isAuthenticated env_faulty req1 = Inr alice \<and>
      threads_list env_faulty (accessToken alice) 5 True = Inr [thread1, thread2]"
    by (simp add: isAuthenticated_req1 isAuthenticated_faulty) (simp add: scenario_defs)
  have k: "email_record alice thread1 = Inr doc1 \<and> index_key doc1 \<in> index_key ` set (emails_coll state1)"
    by (simp add: email_record_thread1) (simp add: state1_def)
  note t1 = email_archive_unique [of state1 state1 env_faulty req1 alice thread1 doc1 1
      "[thread1, thread2]" env_faulty req1]
  note t2 = email_archive_unique [of state1 initial_state env0 req1 alice thread1 doc1 1
      "[thread1, thread2]" env_faulty req1]
  have e: "emails_coll state1 = [doc1, doc2]" by (simp add: state1_def)
  from t1 r k have "unique_index (emails_coll state1)"
    and "unique_index (emails_coll (snd (handle env_faulty ReadEmails req1 state1)))"
    and "emails_coll (snd (create_email env_faulty alice 1 thread1 state1)) = emails_coll state1"
    by blast+
  moreover from t2 a have "emails_coll (snd (handle env_faulty ReadEmails req1 state1)) = [doc1, doc2]"
    by (simp add: ingest_once e)
  ultimately show ?thesis using r by simp
qed

section \<open>Failure isolation in a batch\<close>

text \<open>
  C3. When the gateway has answered, the handler answers 201 with every fetched
  thread, and \<^verbatim>\<open>emails.create\<close> has been called once for every thread whose
  record can be derived, whatever the store answered to the other calls. A write that
  fails with any error leaves the callback fulfilled with one console entry and the
  archive unchanged; a write that meets an archived key fails with the duplicate-key
  error, which is swallowed in the same way.
\<close>

theorem ingestion_isolation:
  "(isAuthenticated env req = Inr u \<and> threads_list env (accessToken u) 5 True = Inr ths \<longrightarrow>
      fst (handle env ReadEmails req s) = Responded \<lparr>status = 201, content = JsonThreads ths\<rparr> \<and>
      calls (snd (handle env ReadEmails req s)) =
        calls s @ ThreadsList (accessToken u) 5 True # map EmailsCreate (derivable_docs u ths)) \<and>
   (email_record u t = Inr d \<and> emails_create env i d s0 = (Inl e, s1) \<longrightarrow>
      create_email env u i t s0 = (Fulfilled, add_log (catch_entry e) s1) \<and>
      emails_coll s1 = emails_coll s0) \<and>
   (email_record u t = Inr d \<and> emails_create_fault env i = None \<and>
    index_key d \<in> index_key ` set (emails_coll s0) \<longrightarrow>
      create_email env u i t s0 =
        (Fulfilled, add_log (catch_entry (duplicate_key_error env)) (add_call (EmailsCreate d) s0)))"
proof (intro conjI impI)
  assume a: "isAuthenticated env req = Inr u \<and> threads_list env (accessToken u) 5 True = Inr ths"
  then have h: "handle env ReadEmails req s = read_emails env u req s"
    by (simp add: handle_authenticated)
  from a show "fst (handle env ReadEmails req s) = Responded \<lparr>status = 201, content = JsonThreads ths\<rparr>"
    unfolding h by (simp add: read_emails_fetched)
  from a show "calls (snd (handle env ReadEmails req s)) =
        calls s @ ThreadsList (accessToken u) 5 True # map EmailsCreate (derivable_docs u ths)"
    unfolding h by (simp add: read_emails_calls)
next
  assume a: "email_record u t = Inr d \<and> emails_create env i d s0 = (Inl e, s1)"
  then show "create_email env u i t s0 = (Fulfilled, add_log (catch_entry e) s1)"
    by (simp add: create_email_failed)
  from a show "emails_coll s1 = emails_coll s0"
    by (auto simp: emails_create_cases split: if_splits)
next
  assume a: "email_record u t = Inr d \<and> emails_create_fault env i = None \<and>
    index_key d \<in> index_key ` set (emails_coll s0)"
  then have "emails_create env i d s0 = (Inl (duplicate_key_error env), add_call (EmailsCreate d) s0)"
    by (simp add: emails_create_duplicate)
  with a show "create_email env u i t s0 =
        (Fulfilled, add_log (catch_entry (duplicate_key_error env)) (add_call (EmailsCreate d) s0))"
    by (simp add: create_email_failed)
qed

theorem ingestion_isolation_witness:
  "fst (handle env_faulty ReadEmails req1 state_dup) =
     Responded \<lparr>status = 201, content = JsonThreads [thread1, thread2]\<rparr> \<and>
   calls (snd (handle env_faulty ReadEmails req1 state_dup)) =
     [ThreadsList ''at1'' 5 True, EmailsCreate doc1, EmailsCreate doc2] \<and>
   create_email env_faulty alice 0 thread1 state_dup =
     (Fulfilled, add_log (ConsoleError ''Unexpected error:'' network_error)
        (add_call (EmailsCreate doc1) state_dup)) \<and>
   create_email env_faulty alice 1 thread2 state_dup =
     (Fulfilled, add_log (ConsoleLog ''Email with the same subject and snippet already exists'')
        (add_call (EmailsCreate doc2) state_dup))"
proof -
  have a: "isAuthenticated env_faulty req1 = Inr alice \<and>
      threads_list env_faulty (accessToken alice) 5 True = Inr [thread1, thread2]"
    by (simp add: isAuthenticated_faulty) (simp add: scenario_defs)
  have b: "email_record alice thread1 = Inr doc1 \<and>
      emails_create env_faulty 0 doc1 state_dup = (Inl network_error, add_call (EmailsCreate doc1) state_dup)"
    by (simp add: email_record_thread1) (simp add: emails_create_def env_faulty_def Let_def)
  have c: "email_record alice thread2 = Inr doc2 \<and> emails_create_fault env_faulty 1 = None \<and>
      index_key doc2 \<in> index_key ` set (emails_coll state_dup)"
    by (simp add: email_record_thread2) (simp add: env_faulty_def env0_def state_dup_def)
  have d: "derivable_docs alice [thread1, thread2] = [doc1, doc2]"
    by (simp add: derivable_docs_def map_filter_simps email_record_thread1 email_record_thread2)
  have l1: "catch_entry network_error = ConsoleError ''Unexpected error:'' network_error"
    by (simp add: catch_entry_def network_error_def)
  have l2: "catch_entry (duplicate_key_error env_faulty) =
      ConsoleLog ''Email with the same subject and snippet already exists''"
    by (simp add: catch_entry_def duplicate_key_error_def env_faulty_def env0_def)
  have s: "calls state_dup = [] \<and> accessToken alice = ''at1''"
    by (simp add: scenario_defs)
  note t1 = ingestion_isolation [of env_faulty req1 alice "[thread1, thread2]" state_dup
      thread1 doc1 0 state_dup network_error "add_call (EmailsCreate doc1) state_dup"]
  note t2 = ingestion_isolation [of env_faulty req1 alice "[thread1, thread2]" state_dup
      thread2 doc2 1 state_dup network_error "add_call (EmailsCreate doc1) state_dup"]
  from t1 a b have "fst (handle env_faulty ReadEmails req1 state_dup) =
       Responded \<lparr>status = 201, content = JsonThreads [thread1, thread2]\<rparr>"
    and "calls (snd (handle env_faulty ReadEmails req1 state_dup)) =
       [ThreadsList ''at1'' 5 True, EmailsCreate doc1, EmailsCreate doc2]"
    and "create_email env_faulty alice 0 thread1 state_dup =
       (Fulfilled, add_log (ConsoleError ''Unexpected error:'' network_error)
          (add_call (EmailsCreate doc1) state_dup))"
    by (simp_all add: d l1 s)
  moreover from t2 c have "create_email env_faulty alice 1 thread2 state_dup =
     (Fulfilled, add_log (ConsoleLog ''Email with the same subject and snippet already exists'')
        (add_call (EmailsCreate doc2) state_dup))"
    by (simp add: l2)
  ultimately show ?thesis by simp
qed

text \<open>
  C10. A thread without messages, or whose first message has no sender entry, makes
  the record derivation throw a TypeError inside the try block: the callback is
  fulfilled, prints the error on the non-duplicate branch and calls nothing. The
  handler still answers 201 with every fetched thread, the malformed one included,
  and the writes attempted are those of the rest of the batch.
\<close>

theorem malformed_thread_isolated:
  assumes "messages t = None \<or> messages t = Some [] \<or>
     (\<exists>m ms. messages t = Some (m # ms) \<and> (from_field m = None \<or> from_field m = Some []))"
  shows "create_email env u i t s0 =
           (Fulfilled, add_log (ConsoleError ''Unexpected error:'' TypeError) s0) \<and>
         (isAuthenticated env req = Inr u \<and> threads_list env (accessToken u) 5 True = Inr ths \<and>
          t \<in> set ths \<longrightarrow>
            fst (handle env ReadEmails req s) =
              Responded \<lparr>status = 201, content = JsonThreads ths\<rparr> \<and>
            calls (snd (handle env ReadEmails req s)) =
              calls s @ ThreadsList (accessToken u) 5 True #
                map EmailsCreate (derivable_docs u (removeAll t ths)))"
proof -
  have rec: "email_record u t = Inl TypeError"
    using first_sender_email_malformed [OF assms] by (simp add: email_record_def)
  then have one: "create_email env u i t s0 =
      (Fulfilled, add_log (ConsoleError ''Unexpected error:'' TypeError) s0)"
    by (simp add: create_email_def create_catch_def catch_entry_TypeError)
  have batch: "fst (handle env ReadEmails req s) =
        Responded \<lparr>status = 201, content = JsonThreads ths\<rparr> \<and>
      calls (snd (handle env ReadEmails req s)) =
        calls s @ ThreadsList (accessToken u) 5 True #
          map EmailsCreate (derivable_docs u (removeAll t ths))"
    if a: "isAuthenticated env req = Inr u \<and> threads_list env (accessToken u) 5 True = Inr ths \<and>
          t \<in> set ths"
  proof -
    from a have h: "handle env ReadEmails req s = read_emails env u req s"
      by (simp add: handle_authenticated)
    from a show ?thesis
      unfolding h
      by (simp add: read_emails_fetched createEmailPromises_calls derivable_docs_removeAll [OF rec])
  qed
  from one batch show ?thesis by blast
qed

theorem malformed_thread_isolated_witness:
  "create_email env_bad alice 0 thread_bad initial_state =
     (Fulfilled, add_log (ConsoleError ''Unexpected error:'' TypeError) initial_state) \<and>
   fst (handle env_bad ReadEmails req1 initial_state) =
     Responded \<lparr>status = 201, content = JsonThreads [thread_bad, thread1]\<rparr> \<and>
   calls (snd (handle env_bad ReadEmails req1 initial_state)) =
     [ThreadsList ''at1'' 5 True, EmailsCreate doc1] \<and>
   emails_coll (snd (handle env_bad ReadEmails req1 initial_state)) = [doc1]"
proof -
  have m: "messages thread_bad = Some []" by (simp add: thread_bad_def)
  have a: "isAuthenticated env_bad req1 = Inr alice \<and>
      threads_list env_bad (accessToken alice) 5 True = Inr [thread_bad, thread1] \<and>
      thread_bad \<in> set [thread_bad, thread1]"
    by (simp add: isAuthenticated_def env_bad_def env0_def req1_def)
  have ne: "thread_bad \<noteq> thread1" by (simp add: thread1_def thread_bad_def)
  have d: "derivable_docs alice (removeAll thread_bad [thread_bad, thread1]) = [doc1]"
    using ne by (simp add: derivable_docs_simps email_record_thread1)
  have s1: "calls initial_state = []" by (simp add: initial_state_def)
  have s2: "accessToken alice = ''at1''" by (simp add: alice_def)
  have c: "emails_coll (snd (handle env_bad ReadEmails req1 initial_state)) = [doc1]"
    by (simp add: ingest_defs scenario_defs env_bad_def TypeError_def)
  note t = malformed_thread_isolated [of thread_bad env_bad alice 0 initial_state req1
      "[thread_bad, thread1]" initial_state]
  from t m a have "create_email env_bad alice 0 thread_bad initial_state =
       (Fulfilled, add_log (ConsoleError ''Unexpected error:'' TypeError) initial_state)"
    and "fst (handle env_bad ReadEmails req1 initial_state) =
       Responded \<lparr>status = 201, content = JsonThreads [thread_bad, thread1]\<rparr>"
    and "calls (snd (handle env_bad ReadEmails req1 initial_state)) =
       calls initial_state @ ThreadsList (accessToken alice) 5 True #
         map EmailsCreate (derivable_docs alice (removeAll thread_bad [thread_bad, thread1]))"
    by blast+
  then show ?thesis
    unfolding d s1 s2 using c by simp
qed

section \<open>The aggregate wait\<close>

text \<open>
  C9. Every promise of the batch is fulfilled, so \<^verbatim>\<open>Promise.all\<close> never rejects:
  an authenticated request whose fetch succeeded is answered 201, and no request to
  the ingestion route is ever answered 500.
\<close>

theorem aggregate_wait_never_fails:
  "promise_all (fst (createEmailPromises env u i ths s0)) = Inr () \<and>
   (isAuthenticated env req = Inr u \<and> threads_list env (accessToken u) 5 True = Inr ths \<longrightarrow>
      fst (handle env ReadEmails req s) = Responded \<lparr>status = 201, content = JsonThreads ths\<rparr>) \<and>
   (\<forall>r. http_response (fst (handle env ReadEmails req s)) = Some r \<longrightarrow> status r \<noteq> 500)"
proof (intro conjI impI allI)
  show "promise_all (fst (createEmailPromises env u i ths s0)) = Inr ()"
    by (simp add: createEmailPromises_fulfilled promise_all_replicate)
next
  assume a: "isAuthenticated env req = Inr u \<and> threads_list env (accessToken u) 5 True = Inr ths"
  then show "fst (handle env ReadEmails req s) = Responded \<lparr>status = 201, content = JsonThreads ths\<rparr>"
    by (simp add: handle_authenticated read_emails_fetched)
next
  fix r
  assume r: "http_response (fst (handle env ReadEmails req s)) = Some r"
  show "status r \<noteq> 500"
  proof (cases "isAuthenticated env req")
    case (Inl x)
    then have "x = unauthorized"
      by (auto simp: isAuthenticated_def split: option.splits if_splits)
    with Inl r show ?thesis
      by (auto simp: handle_def protected_def unauthorized_def)
  next
    case (Inr v)
    then have h: "handle env ReadEmails req s = read_emails env v req s"
      by (simp add: handle_authenticated)
    show ?thesis
    proof (cases "threads_list env (accessToken v) 5 True")
      case (Inl e)
      with r show ?thesis unfolding h by (simp add: read_emails_failed)
    next
      case (Inr ths')
      with r show ?thesis unfolding h by (auto simp: read_emails_fetched)
    qed
  qed
qed

theorem aggregate_wait_never_fails_witness:
  "promise_all (fst (createEmailPromises env_faulty alice 0 [thread_bad, thread1, thread2] state_dup)) = Inr () \<and>
   fst (handle env_faulty ReadEmails req1 state_dup) =
     Responded \<lparr>status = 201, content = JsonThreads [thread1, thread2]\<rparr> \<and>
   http_response (fst (handle env_faulty ReadEmails req1 state_dup)) =
     Some \<lparr>status = 201, content = JsonThreads [thread1, thread2]\<rparr> \<and>
   status \<lparr>status = 201, content = JsonThreads [thread1, thread2]\<rparr> \<noteq> 500"
proof -
  have a: "isAuthenticated env_faulty req1 = Inr alice \<and>
      threads_list env_faulty (accessToken alice) 5 True = Inr [thread1, thread2]"
    by (simp add: isAuthenticated_faulty) (simp add: scenario_defs)
  note t0 = aggregate_wait_never_fails [of env_faulty alice 0 "[thread_bad, thread1, thread2]"
      state_dup req1 state_dup]
  note t = aggregate_wait_never_fails [of env_faulty alice 0 "[thread1, thread2]"
      state_dup req1 state_dup]
  from t a have f: "fst (handle env_faulty ReadEmails req1 state_dup) =
     Responded \<lparr>status = 201, content = JsonThreads [thread1, thread2]\<rparr>"
    by blast
  then have "http_response (fst (handle env_faulty ReadEmails req1 state_dup)) =
     Some \<lparr>status = 201, content = JsonThreads [thread1, thread2]\<rparr>"
    by simp
  with t0 f show ?thesis by simp
qed

text \<open>
  C8. An authenticated ingestion request asks the gateway for threads with
  \<^verbatim>\<open>limit: 5, expanded: true\<close>. When the fetch succeeds the handler answers 201
  with the whole fetched list, in the state reached after one callback per thread has
  settled. The catch around the aggregate wait answers 500 with the generic message
  when the wait rejects.
\<close>

theorem ingestion_response:
  "(isAuthenticated env req = Inr u \<and> threads_list env (accessToken u) 5 True = Inr ths \<longrightarrow>
      handle env ReadEmails req s =
        (Responded \<lparr>status = 201, content = JsonThreads ths\<rparr>,
         snd (createEmailPromises env u 0 ths (add_call (ThreadsList (accessToken u) 5 True) s))) \<and>
      length (fst (createEmailPromises env u 0 ths (add_call (ThreadsList (accessToken u) 5 True) s)))
        = length ths \<and>
      calls (snd (handle env ReadEmails req s)) =
        calls s @ ThreadsList (accessToken u) 5 True # map EmailsCreate (derivable_docs u ths)) \<and>
   (promise_all ps = Inl e \<longrightarrow>
      await_all ps ths s1 =
        (Responded \<lparr>status = 500, content = JsonMessage ''Internal server error''\<rparr>,
         add_log (ConsoleError ''Error in Promise.all:'' e) s1))"
proof (intro conjI impI)
  assume a: "isAuthenticated env req = Inr u \<and> threads_list env (accessToken u) 5 True = Inr ths"
  then have h: "handle env ReadEmails req s = read_emails env u req s"
    by (simp add: handle_authenticated)
  from a show "handle env ReadEmails req s =
        (Responded \<lparr>status = 201, content = JsonThreads ths\<rparr>,
         snd (createEmailPromises env u 0 ths (add_call (ThreadsList (accessToken u) 5 True) s)))"
    unfolding h by (simp add: read_emails_fetched)
  show "length (fst (createEmailPromises env u 0 ths (add_call (ThreadsList (accessToken u) 5 True) s)))
        = length ths"
    by (simp add: createEmailPromises_fulfilled)
  from a show "calls (snd (handle env ReadEmails req s)) =
        calls s @ ThreadsList (accessToken u) 5 True # map EmailsCreate (derivable_docs u ths)"
    unfolding h by (simp add: read_emails_calls)
next
  assume "promise_all ps = Inl e"
  then show "await_all ps ths s1 =
        (Responded \<lparr>status = 500, content = JsonMessage ''Internal server error''\<rparr>,
         add_log (ConsoleError ''Error in Promise.all:'' e) s1)"
    by (simp add: await_all_def)
qed

theorem ingestion_response_witness:
  "handle env0 ReadEmails req1 state1 =
     (Responded \<lparr>status = 201, content = JsonThreads [thread1, thread2]\<rparr>,
      snd (createEmailPromises env0 alice 0 [thread1, thread2]
            (add_call (ThreadsList ''at1'' 5 True) state1))) \<and>
   emails_coll (snd (handle env0 ReadEmails req1 state1)) = emails_coll state1 \<and>
   calls (snd (handle env0 ReadEmails req1 state1)) =
     calls state1 @ [ThreadsList ''at1'' 5 True, EmailsCreate doc1, EmailsCreate doc2] \<and>
   await_all [Fulfilled, Failed network_error] [thread1, thread2] state1 =
     (Responded \<lparr>status = 500, content = JsonMessage ''Internal server error''\<rparr>,
      add_log (ConsoleError ''Error in Promise.all:'' network_error) state1)"
proof -
  have a: "isAuthenticated env0 req1 = Inr alice \<and>
      threads_list env0 (accessToken alice) 5 True = Inr [thread1, thread2]"
    by (simp add: isAuthenticated_req1) (simp add: scenario_defs)
  have p: "promise_all [Fulfilled, Failed network_error] = Inl network_error" by simp
  have d: "derivable_docs alice [thread1, thread2] = [doc1, doc2]"
    by (simp add: derivable_docs_def map_filter_simps email_record_thread1 email_record_thread2)
  have t: "accessToken alice = ''at1''" by (simp add: alice_def)
  have c: "emails_coll (snd (handle env0 ReadEmails req1 state1)) = emails_coll state1"
    by (simp add: ingest_defs scenario_defs)
  note inst = ingestion_response [of env0 req1 alice "[thread1, thread2]" state1
      "[Fulfilled, Failed network_error]" network_error state1]
  from inst a p have "handle env0 ReadEmails req1 state1 =
     (Responded \<lparr>status = 201, content = JsonThreads [thread1, thread2]\<rparr>,
      snd (createEmailPromises env0 alice 0 [thread1, thread2]
            (add_call (ThreadsList (accessToken alice) 5 True) state1)))"
    and "calls (snd (handle env0 ReadEmails req1 state1)) =
      calls state1 @ ThreadsList (accessToken alice) 5 True #
        map EmailsCreate (derivable_docs alice [thread1, thread2])"
    and "await_all [Fulfilled, Failed network_error] [thread1, thread2] state1 =
     (Responded \<lparr>status = 500, content = JsonMessage ''Internal server error''\<rparr>,
      add_log (ConsoleError ''Error in Promise.all:'' network_error) state1)"
    by blast+
  then show ?thesis
    unfolding d t using c by (simp del: createEmailPromises.simps)
qed

section \<open>Reply generation\<close>

text \<open>
  C4, as amended. For an authenticated account with a non-empty email, when the
  archive read succeeds and, for every record archived under the account's email, the
  completion call answers with a text and the reply write is not made to fail: the
  handler suspends one callback per record, and once these have settled, in any
  order, the reply archive has gained exactly one reply per record, owned by the
  account's email and holding the completion's text for that record.
\<close>

theorem reply_generation_complete:
  assumes "isAuthenticated env req = Inr u"
    and "emails_find_fault env = None"
    and "emailAddress u \<noteq> []"
    and "\<forall>(i, d) \<in> set (enumerate 0 (archived_for u s)).
           completion_text env i (prompt d) \<noteq> None \<and> reply_create_fault env i = None"
    and "mset sched = mset (reply_tasks u 0 (archived_for u s))"
  shows "pending (snd (handle env ReadEmailGpt req s)) =
           pending s @ reply_tasks u 0 (archived_for u s) \<and>
         mset (reply_coll (settle_tasks env sched (snd (handle env ReadEmailGpt req s)))) =
           mset (reply_coll s) +
           mset (map (\<lambda>(i, d). reply_for env u i d) (enumerate 0 (archived_for u s)))"
proof -
  let ?s0 = "add_call (EmailsFind (emailAddress u)) s"
  let ?ds = "archived_for u s"
  have h: "handle env ReadEmailGpt req s = (Returned ValTrue, dispatch_all u 0 ?ds ?s0)"
    using assms(1,2) by (rule read_email_gpt_returns)
  have ok: "\<forall>t \<in> set (reply_tasks u 0 ?ds). task_succeeds env t"
    using assms(3,4) by (rule reply_tasks_succeed)
  have "mset (reply_coll (settle_tasks env sched (dispatch_all u 0 ?ds ?s0))) =
      mset (reply_coll (dispatch_all u 0 ?ds ?s0)) +
      mset (map (generated_reply env) (reply_tasks u 0 ?ds))"
    using ok assms(5) by (rule settle_tasks_mset)
  then show ?thesis
    unfolding h
    by (simp add: dispatch_all_pending dispatch_all_colls generated_reply_tasks)
qed

theorem reply_generation_complete_witness:
  "pending (snd (handle env0 ReadEmailGpt req1 state1)) =
     [reply_task alice 0 doc1, reply_task alice 1 doc2] \<and>
   mset (reply_coll (settle_tasks env0 [reply_task alice 1 doc2, reply_task alice 0 doc1]
       (snd (handle env0 ReadEmailGpt req1 state1)))) = {#reply1, reply1#}"
proof -
  have e: "enumerate 0 [doc1, doc2] = [(0, doc1), (1, doc2)]" by (simp add: enumerate_simps)
  have t: "reply_tasks alice 0 [doc1, doc2] = [reply_task alice 0 doc1, reply_task alice 1 doc2]"
    by (simp add: reply_tasks_def e)
  have a: "isAuthenticated env0 req1 = Inr alice" by (rule isAuthenticated_req1)
  have b: "emails_find_fault env0 = None" by (simp add: env0_def)
  have c: "emailAddress alice \<noteq> []" by (simp add: alice_def)
  have d: "\<forall>(i, d) \<in> set (enumerate 0 (archived_for alice state1)).
      completion_text env0 i (prompt d) \<noteq> None \<and> reply_create_fault env0 i = None"
    by (simp add: completion_text_env0) (simp add: env0_def)
  have m: "mset [reply_task alice 1 doc2, reply_task alice 0 doc1] =
      mset (reply_tasks alice 0 (archived_for alice state1))"
    by (simp add: archived_for_state1 t)
  have r: "\<And>i d. reply_for env0 alice i d = reply1"
    by (simp add: reply_for_def completion_text_env0 reply1_def alice_def)
  have p: "pending state1 = [] \<and> reply_coll state1 = []" by (simp add: state1_def)
  from reply_generation_complete [OF a b c d m]
  show ?thesis
    by (simp add: archived_for_state1 t e r p)
qed

text \<open>
  C4 as stated assumes only that the completion calls succeed. With one archived
  record and a completion that answers \<open>Draft reply\<close>, a store that rejects the
  reply write leaves the reply archive empty after the callback has settled; and a
  store that rejects the email read makes the handler reject before any callback is
  started, so that nothing is pending and no reply is ever stored.
\<close>

theorem reply_generation_counterexample:
  "isAuthenticated env_write_fail req1 = Inr alice \<and>
   archived_for alice state_one = [doc1] \<and>
   createCompletion env_write_fail 0 (prompt doc1) = Inr [''Draft reply''] \<and>
   pending (snd (handle env_write_fail ReadEmailGpt req1 state_one)) = [reply_task alice 0 doc1] \<and>
   reply_coll (settle_tasks env_write_fail [reply_task alice 0 doc1]
       (snd (handle env_write_fail ReadEmailGpt req1 state_one))) = [] \<and>
   createCompletion env_find_fail 0 (prompt doc1) = Inr [''Draft reply''] \<and>
   fst (handle env_find_fail ReadEmailGpt req1 state_one) = Rejected network_error \<and>
   pending (snd (handle env_find_fail ReadEmailGpt req1 state_one)) = [] \<and>
   reply_coll (snd (handle env_find_fail ReadEmailGpt req1 state_one)) = []"
  by (simp add: reply_defs reply_scenario_defs scenario_defs archived_for_def reply_task_def)

text \<open>
  C7. For the account of the concrete deployment with two archived records, the handler
  resolves with \<^verbatim>\<open>true\<close> (line 221) and never writes to \<^verbatim>\<open>res\<close>: the request
  gets no response. At that point both completion requests have been sent, both
  callbacks are suspended and no reply has been stored.
\<close>

theorem reply_generation_never_responds:
  "fst (handle env0 ReadEmailGpt req1 state1) = Returned ValTrue \<and>
   http_response (fst (handle env0 ReadEmailGpt req1 state1)) = None \<and>
   pending (snd (handle env0 ReadEmailGpt req1 state1)) =
     [reply_task alice 0 doc1, reply_task alice 1 doc2] \<and>
   calls (snd (handle env0 ReadEmailGpt req1 state1)) =
     calls state1 @ [EmailsFind ''a@x.com'', CreateCompletion (prompt doc1),
       CreateCompletion (prompt doc2)] \<and>
   reply_coll (snd (handle env0 ReadEmailGpt req1 state1)) = []"
  by (simp add: reply_defs scenario_defs reply_task_def)

section \<open>Reply listing\<close>

text \<open>
  C5. For the account of the concrete deployment, whose reply archive holds one reply
  of its own and one of another account, the store read succeeds and the handler
  resolves with the account's reply (\<^verbatim>\<open>return replies\<close>, line 229), but never
  writes to \<^verbatim>\<open>res\<close>: the caller receives no response.
\<close>

theorem reply_listing_sends_nothing:
  "handle env0 ReadReplies req1 state_replies =
     (Returned (ValReplies [reply1]), add_call (ReplyFind ''a@x.com'') state_replies) \<and>
   http_response (fst (handle env0 ReadReplies req1 state_replies)) = None"
  by (simp add: reply_defs reply_scenario_defs scenario_defs)

text \<open>
  C6. When the store read fails, the catch block (line 231) evaluates
  \<^verbatim>\<open>e.message\<close> with \<^verbatim>\<open>e\<close> undeclared: the handler rejects with a
  ReferenceError, the console stays empty and no response is sent.
\<close>

theorem reply_listing_failure_not_logged:
  "handle env_read_fail ReadReplies req1 state_replies =
     (Rejected ReferenceError, add_call (ReplyFind ''a@x.com'') state_replies) \<and>
   console (snd (handle env_read_fail ReadReplies req1 state_replies)) = [] \<and>
   http_response (fst (handle env_read_fail ReadReplies req1 state_replies)) = None"
  by (simp add: reply_defs reply_scenario_defs scenario_defs)


end
